theory Spec2Isabelle
  imports Main
begin

section \<open>The debounced install loop\<close>

text \<open>
  Both iterations of the tool (\<^verbatim>\<open>src/rego.go\<close>, lines 147-167, and
  \<^verbatim>\<open>src/unnamed/part_000\<close>, lines 222-242) run the same goroutine:
  \<^verbatim>\<open>
  needsInstall := 0
  for {
      var timerChan <-chan time.Time
      if needsInstall > 0 {
          timerChan = time.After(200 * time.Millisecond)
      } else {
          timerChan = make(chan time.Time) // never sent on, blocks indefinitely
      }
      select {
      case <-install:
          needsInstall++
          continue
      case <-timerChan:
          needsInstall = 0
          installAndRestart()
      }
  }
  \<close>
  Time is counted in milliseconds. The state of the goroutine is its counter, the
  time at which it last reached the top of the \<^verbatim>\<open>for\<close>, and the times at which
  it has called \<^verbatim>\<open>installAndRestart\<close>. The counter is a Go \<^verbatim>\<open>int\<close>; a burst
  of \<open>2^63\<close> signals is out of reach, so it is a natural number here.
\<close>

record dstate =
  needsInstall :: nat
  clock :: nat
  calls :: "nat list"

text \<open>The quiet period of \<^verbatim>\<open>time.After(200 * time.Millisecond)\<close>.\<close>

definition quiet :: nat where
  "quiet = 200"

text \<open>
  The timer channel made at the top of an iteration: armed with a fresh quiet period
  when the counter is positive (\<open>Some\<close> the time at which it fires), never firing
  otherwise.
\<close>

definition timerChan :: "dstate \<Rightarrow> nat option" where
  "timerChan st = (if needsInstall st > 0 then Some (clock st + quiet) else None)"

text \<open>
  \<^verbatim>\<open>case <-install\<close>: a signal whose sender was ready at time \<open>t\<close> is received as
  soon as the loop waits in the \<^verbatim>\<open>select\<close>, and the loop is back at its top.
\<close>

definition recvInstall :: "nat \<Rightarrow> dstate \<Rightarrow> dstate" where
  "recvInstall t st = st\<lparr>needsInstall := needsInstall st + 1, clock := max (clock st) t\<rparr>"

text \<open>
  \<^verbatim>\<open>case <-timerChan\<close> at time \<open>d\<close>: the counter is cleared and
  \<^verbatim>\<open>installAndRestart\<close> is called once; it returns \<open>dur d\<close> milliseconds later.
\<close>

definition timerFired :: "(nat \<Rightarrow> nat) \<Rightarrow> nat \<Rightarrow> dstate \<Rightarrow> dstate" where
  "timerFired dur d st = st\<lparr>needsInstall := 0, clock := d + dur d, calls := calls st @ [d]\<rparr>"

text \<open>
  The loop run on the signals that will ever be sent, given by the times at which
  their senders are ready, in order. A signal ready before the timer fires is received
  first; when a signal becomes ready at the very instant at which the timer fires, Go
  takes either case, and the function takes the timer. The loop itself never ends:
  the result is the state in which it waits for ever, with nothing left to receive
  and no timer armed.
\<close>

function installLoop :: "(nat \<Rightarrow> nat) \<Rightarrow> dstate \<Rightarrow> nat list \<Rightarrow> dstate" where
  "installLoop dur st ts =
     (case timerChan st of
        None \<Rightarrow>
          (case ts of
             [] \<Rightarrow> st
           | t # ts' \<Rightarrow> installLoop dur (recvInstall t st) ts')
      | Some d \<Rightarrow>
          (case ts of
             [] \<Rightarrow> installLoop dur (timerFired dur d st) []
           | t # ts' \<Rightarrow>
               if t < d then installLoop dur (recvInstall t st) ts'
               else installLoop dur (timerFired dur d st) ts))"
  by pat_completeness auto
termination
  by (relation "measure (\<lambda>(dur, st, ts). 2 * length ts + (if needsInstall st > 0 then 1 else 0))")
     (auto simp: timerChan_def recvInstall_def timerFired_def split: if_splits)

text \<open>
  A burst, seen from a loop that armed its timer at time \<open>c\<close>: every signal is
  ready before the timer armed at the receipt of the one before it fires. A signal
  that was ready while the loop was busy is received when the loop is back in the
  \<^verbatim>\<open>select\<close>, so the time of a receipt is the later of the two.
\<close>

fun burst :: "nat \<Rightarrow> nat list \<Rightarrow> bool" where
  "burst c [] = True"
| "burst c (t # ts) = (t < c + quiet \<and> burst (max c t) ts)"

section \<open>The process supervisor\<close>

text \<open>
  The goroutine that owns the child process (\<^verbatim>\<open>src/unnamed/part_000\<close>, lines
  145-170):
  \<^verbatim>\<open>
  var proc *os.Process
  for alive := range restart {
      if proc != nil {
          if err := proc.Signal(os.Interrupt); err != nil {
              log.Println(err)
              proc.Kill()
          }
          proc.Wait()
      }
      if !alive {
          os.Exit(0)
      }
      cmd := exec.Command(...)
      if err := cmd.Start(); err != nil {
          log.Println(err)
      }
      proc = cmd.Process
  }
  \<close>
  A process is named by its pid. What the goroutine does to processes, and to the
  tool itself, is recorded in order.
\<close>

datatype action =
    Interrupt nat
  | Kill nat
  | Wait nat
  | Start "nat option"
  | OsExit nat

record supervisor =
  proc :: "nat option"
  acts :: "action list"
  exited :: "nat option"

text \<open>
  Lines 149-155. \<open>sigErr p\<close> tells whether \<^verbatim>\<open>proc.Signal(os.Interrupt)\<close> returns an
  error for process \<open>p\<close>.
\<close>

definition stopProc :: "(nat \<Rightarrow> bool) \<Rightarrow> supervisor \<Rightarrow> supervisor" where
  "stopProc sigErr s =
     (case proc s of
        None \<Rightarrow> s
      | Some p \<Rightarrow>
          s\<lparr>acts := acts s @ [Interrupt p] @ (if sigErr p then [Kill p] else []) @ [Wait p]\<rparr>)"

text \<open>
  One iteration of the \<^verbatim>\<open>range\<close> loop, for the value \<open>alive\<close> received.
  \<open>started\<close> is \<^verbatim>\<open>cmd.Process\<close> after \<^verbatim>\<open>cmd.Start()\<close>: the new process, or
  \<^verbatim>\<open>nil\<close> when the start failed (the error is only logged).
\<close>

definition onRestart :: "(nat \<Rightarrow> bool) \<Rightarrow> nat option \<Rightarrow> bool \<Rightarrow> supervisor \<Rightarrow> supervisor" where
  "onRestart sigErr started alive s =
     (let s1 = stopProc sigErr s in
      if \<not> alive then s1\<lparr>acts := acts s1 @ [OsExit 0], exited := Some 0\<rparr>
      else s1\<lparr>acts := acts s1 @ [Start started], proc := started\<rparr>)"

text \<open>
  The \<^verbatim>\<open>range\<close> loop over the requests that arrive, each paired with what
  \<^verbatim>\<open>cmd.Start()\<close> would give for it. Nothing runs after \<^verbatim>\<open>os.Exit\<close>.
\<close>

fun supervisorLoop :: "(nat \<Rightarrow> bool) \<Rightarrow> (bool \<times> nat option) list \<Rightarrow> supervisor \<Rightarrow> supervisor" where
  "supervisorLoop sigErr [] s = s"
| "supervisorLoop sigErr ((alive, started) # rs) s =
     (let s' = onRestart sigErr started alive s in
      if exited s' \<noteq> None then s' else supervisorLoop sigErr rs s')"

text \<open>
  The state of the supervisor after it has served the restart requests \<open>starts\<close>,
  given by what \<^verbatim>\<open>cmd.Start()\<close> gives for each.
\<close>

definition restarts :: "(nat \<Rightarrow> bool) \<Rightarrow> nat option list \<Rightarrow> supervisor \<Rightarrow> supervisor" where
  "restarts sigErr starts s = foldl (\<lambda>s started. onRestart sigErr started True s) s starts"

text \<open>
  The iteration of \<^verbatim>\<open>src/rego.go\<close> (lines 91-114) has a channel of
  \<^verbatim>\<open>struct{}\<close> and no \<^verbatim>\<open>alive\<close> test: every request is a restart.
\<close>

definition onRestart0 :: "(nat \<Rightarrow> bool) \<Rightarrow> nat option \<Rightarrow> supervisor \<Rightarrow> supervisor" where
  "onRestart0 sigErr started s =
     (let s1 = stopProc sigErr s in s1\<lparr>acts := acts s1 @ [Start started], proc := started\<rparr>)"

text \<open>
  The signal goroutine (\<^verbatim>\<open>src/unnamed/part_000\<close>, lines 172-179) is notified of
  three signals and sends \<^verbatim>\<open>false\<close> on \<^verbatim>\<open>restart\<close> for the first one it gets:
  \<^verbatim>\<open>
  signal.Notify(c, syscall.SIGTERM, syscall.SIGINT, syscall.SIGHUP)
  <-c
  restart <- false
  \<close>
\<close>

datatype signal = SIGTERM | SIGINT | SIGHUP

definition onSignal :: "signal \<Rightarrow> bool option" where
  "onSignal sig = Some False"

section \<open>The build\<close>

text \<open>
  \<^verbatim>\<open>installAndRestart\<close> (\<^verbatim>\<open>src/unnamed/part_000\<close>, lines 181-220;
  \<^verbatim>\<open>src/rego.go\<close>, lines 116-145) runs \<^verbatim>\<open>go install\<close>. With \<open>ok\<close> for
  \<^verbatim>\<open>cmd.Run()\<close> returning no error:
  \<^verbatim>\<open>
  if err := cmd.Run(); err == nil {
      var word string
      if nrestarts == 0 { word = "starting" } else { word = "restarting" }
      nrestarts++
      log.Println("... ok ...", word)
      restart <- true
  } else {
      log.Println("...!!!!...", "compilation failed")
  }
  \<close>
  The result is the new state of the closure and the value sent on \<^verbatim>\<open>restart\<close>,
  if one is sent.
\<close>

record builder =
  nrestarts :: nat
  printed :: "string list"

definition installAndRestart :: "bool \<Rightarrow> builder \<Rightarrow> builder \<times> bool option" where
  "installAndRestart ok b =
     (if ok then
        (b\<lparr>nrestarts := nrestarts b + 1,
           printed := printed b @ [if nrestarts b = 0 then ''starting'' else ''restarting'']\<rparr>,
         Some True)
      else (b\<lparr>printed := printed b @ [''compilation failed'']\<rparr>, None))"

text \<open>
  The channel \<^verbatim>\<open>restart\<close> is unbuffered: a value sent is the next value the
  supervisor's \<^verbatim>\<open>range\<close> loop receives.
\<close>

definition deliver :: "(nat \<Rightarrow> bool) \<Rightarrow> nat option \<Rightarrow> bool option \<Rightarrow> supervisor \<Rightarrow> supervisor" where
  "deliver sigErr started req s =
     (case req of None \<Rightarrow> s | Some alive \<Rightarrow> onRestart sigErr started alive s)"

text \<open>One build with its effect on the supervisor.\<close>

definition buildCycle ::
  "(nat \<Rightarrow> bool) \<Rightarrow> nat option \<Rightarrow> bool \<Rightarrow> builder \<times> supervisor \<Rightarrow> builder \<times> supervisor" where
  "buildCycle sigErr started ok bs =
     (let (b', req) = installAndRestart ok (fst bs) in (b', deliver sigErr started req (snd bs)))"

text \<open>
  In \<^verbatim>\<open>src/rego.go\<close> the value sent is \<^verbatim>\<open>struct{}{}\<close> and the supervisor
  restarts on each.
\<close>

definition buildCycle0 ::
  "(nat \<Rightarrow> bool) \<Rightarrow> nat option \<Rightarrow> bool \<Rightarrow> builder \<times> supervisor \<Rightarrow> builder \<times> supervisor" where
  "buildCycle0 sigErr started ok bs =
     (let (b', req) = installAndRestart ok (fst bs) in
      (b', case req of None \<Rightarrow> snd bs | Some v \<Rightarrow> onRestart0 sigErr started (snd bs)))"

section \<open>Paths and file names\<close>

text \<open>
  \<^verbatim>\<open>filepath.Ext\<close>, \<^verbatim>\<open>filepath.Base\<close>, \<^verbatim>\<open>filepath.Join\<close> and
  \<^verbatim>\<open>strings.HasPrefix\<close> of the Go library, on a system whose path separator is
  \<^verbatim>\<open>/\<close> and whose paths have no volume name.

  \<^verbatim>\<open>Ext\<close> scans from the end of the path, stops at a separator, and returns the
  path from the first dot it meets:
  \<^verbatim>\<open>
  for i := len(path) - 1; i >= 0 && !os.IsPathSeparator(path[i]); i-- {
      if path[i] == '.' { return path[i:] }
  }
  return ""
  \<close>
\<close>

definition IsPathSeparator :: "char \<Rightarrow> bool" where
  "IsPathSeparator c = (c = CHR ''/'')"

fun extScan :: "string \<Rightarrow> string \<Rightarrow> string" where
  "extScan [] suffix = []"
| "extScan (c # front) suffix =
     (if IsPathSeparator c then []
      else if c = CHR ''.'' then c # suffix
      else extScan front (c # suffix))"

definition Ext :: "string \<Rightarrow> string" where
  "Ext path = extScan (rev path) []"

text \<open>
  \<^verbatim>\<open>Base\<close>: the last element of the path, after trailing separators are
  stripped; \<^verbatim>\<open>"."\<close> for the empty path, the separator for a path of separators.
\<close>

definition Base :: "string \<Rightarrow> string" where
  "Base path =
     (if path = [] then ''.''
      else
        let stripped = rev (dropWhile IsPathSeparator (rev path));
            elem = rev (takeWhile (\<lambda>c. \<not> IsPathSeparator c) (rev stripped))
        in if elem = [] then ''/'' else elem)"

definition HasPrefix :: "string \<Rightarrow> string \<Rightarrow> bool" where
  "HasPrefix s pre = (take (length pre) s = pre)"

text \<open>
  \<^verbatim>\<open>Join\<close> of a directory and the name of one of its entries. The Go function
  also cleans the result; the paths joined here are those \<^verbatim>\<open>filepath.Walk\<close>
  builds from a root and entry names, where cleaning changes nothing.
\<close>

definition Join :: "string \<Rightarrow> string \<Rightarrow> string" where
  "Join dir name = dir @ ''/'' @ name"

text \<open>
  \<^verbatim>\<open>matchFile\<close> (\<^verbatim>\<open>src/unnamed/part_000\<close>, lines 244-246). \<^verbatim>\<open>extraPaths\<close>
  is a \<^verbatim>\<open>map[string]bool\<close> in which every stored value is \<^verbatim>\<open>true\<close>, so it is the
  set of its keys:
  \<^verbatim>\<open>
  return (filepath.Ext(name) == ".go" && !strings.HasPrefix(filepath.Base(name), "."))
         || extraPaths[name]
  \<close>
\<close>

definition matchFile :: "string set \<Rightarrow> string \<Rightarrow> bool" where
  "matchFile extraPaths name =
     ((Ext name = ''.go'' \<and> \<not> HasPrefix (Base name) ''.'') \<or> name \<in> extraPaths)"

section \<open>The file system and the watcher\<close>

text \<open>
  What \<^verbatim>\<open>os.Stat\<close> and \<^verbatim>\<open>filepath.Walk\<close> see at a path: a file, a directory
  with its entries by name (in the order \<^verbatim>\<open>Walk\<close> visits them, which is the
  sorted order of the names), or a directory whose entries cannot be read. Symbolic
  links are left out.
\<close>

datatype node =
    File
  | Directory "(string \<times> node) list"
  | Unreadable

fun IsDir :: "node \<Rightarrow> bool" where
  "IsDir File = False"
| "IsDir (Directory entries) = True"
| "IsDir Unreadable = True"

text \<open>
  The function passed to \<^verbatim>\<open>filepath.Walk\<close> (\<^verbatim>\<open>src/unnamed/part_000\<close>, lines
  268-279) appends to \<^verbatim>\<open>paths\<close>. \<open>name\<close> is \<^verbatim>\<open>info.Name()\<close>, the base name of
  the entry, and \<open>err\<close> tells whether \<^verbatim>\<open>Walk\<close> reports an error for the entry:
  \<^verbatim>\<open>
  if err != nil { ...; return nil }
  if info.Mode().IsDir() || matchFile(info.Name()) {
      paths = append(paths, path)
  }
  return nil
  \<close>
\<close>

definition walkFn :: "string set \<Rightarrow> string list \<Rightarrow> string \<Rightarrow> string \<Rightarrow> bool \<Rightarrow> bool \<Rightarrow> string list" where
  "walkFn extraPaths paths path name isdir err =
     (if err then paths
      else if isdir \<or> matchFile extraPaths name then paths @ [path]
      else paths)"

text \<open>
  \<^verbatim>\<open>filepath.Walk\<close> with that function, which never returns an error, so the walk
  is never cut short: the function is called on the root, then on the entries of each
  directory in order, directories being entered as they are met. A directory that
  cannot be read is reported once, with the error.
\<close>

fun walk :: "string set \<Rightarrow> string \<Rightarrow> string \<Rightarrow> node \<Rightarrow> string list \<Rightarrow> string list"
  and walkEntries :: "string set \<Rightarrow> string \<Rightarrow> (string \<times> node) list \<Rightarrow> string list \<Rightarrow> string list" where
  "walk extraPaths path name File paths = walkFn extraPaths paths path name False False"
| "walk extraPaths path name Unreadable paths = walkFn extraPaths paths path name True True"
| "walk extraPaths path name (Directory entries) paths =
     walkEntries extraPaths path entries (walkFn extraPaths paths path name True False)"
| "walkEntries extraPaths dir [] paths = paths"
| "walkEntries extraPaths dir ((name, nd) # entries) paths =
     walkEntries extraPaths dir entries (walk extraPaths (Join dir name) name nd paths)"

definition Walk :: "string set \<Rightarrow> string \<Rightarrow> node \<Rightarrow> string list \<Rightarrow> string list" where
  "Walk extraPaths root nd paths = walk extraPaths root (Base root) nd paths"

text \<open>
  The surroundings of an event handler: what \<^verbatim>\<open>os.Stat\<close> finds at a path
  (\<open>None\<close> for an error), whether \<^verbatim>\<open>w.Add\<close> of a path returns an error, and the
  extra paths fixed at startup.
\<close>

record env =
  stat :: "string \<Rightarrow> node option"
  addErr :: "string \<Rightarrow> bool"
  extraPaths :: "string set"

text \<open>
  The watcher is the set of paths it watches. \<^verbatim>\<open>w.Add\<close> adds the path unless it
  fails; \<^verbatim>\<open>w.Remove\<close> removes the path, and fails with nothing changed when the
  path is not watched. The handlers only log either failure.
\<close>

definition Add :: "env \<Rightarrow> string \<Rightarrow> string set \<Rightarrow> string set" where
  "Add e path w = (if addErr e path then w else insert path w)"

definition Remove_path :: "string \<Rightarrow> string set \<Rightarrow> string set" where
  "Remove_path path w = w - {path}"

fun addPaths :: "env \<Rightarrow> string list \<Rightarrow> string set \<Rightarrow> string set" where
  "addPaths e [] w = w"
| "addPaths e (path # paths) w = addPaths e paths (Add e path w)"

section \<open>File system events\<close>

text \<open>
  \<^verbatim>\<open>fsnotify.Op\<close> is a set of bits, one for each of the five kinds of change. The
  handlers compare \<^verbatim>\<open>ev.Op\<close> with the five single kinds in a \<^verbatim>\<open>switch\<close> without
  \<^verbatim>\<open>default\<close>; \<open>Mixed\<close> stands for every other value, which no \<^verbatim>\<open>case\<close>
  matches.
\<close>

datatype Op = Create | Write | Remove | Rename | Chmod | Mixed

record event =
  Name :: string
  Op :: Op

text \<open>
  The goroutine started for each event (\<^verbatim>\<open>src/unnamed/part_000\<close>, lines
  255-312). The result is the new watch set and whether a signal is sent on
  \<^verbatim>\<open>install\<close>.
  \<^verbatim>\<open>
  switch ev.Op {
  case fsnotify.Create, fsnotify.Rename, fsnotify.Write:
      paths := []string{ev.Name}
      if fi, err := os.Stat(ev.Name); err != nil {
          return
      } else if fi.Mode().IsDir() {
          filepath.Walk(ev.Name, ...)
      } else if !matchFile(ev.Name) {
          return
      }
      for _, path := range paths { w.Add(path) }
  case fsnotify.Remove:
      w.Remove(ev.Name)
  case fsnotify.Chmod:
      return
  }
  install <- struct{}{}
  \<close>
\<close>

definition created :: "env \<Rightarrow> string \<Rightarrow> string set \<Rightarrow> string set \<times> bool" where
  "created e name w =
     (case stat e name of
        None \<Rightarrow> (w, False)
      | Some fi \<Rightarrow>
          if IsDir fi then (addPaths e (Walk (extraPaths e) name fi [name]) w, True)
          else if \<not> matchFile (extraPaths e) name then (w, False)
          else (addPaths e [name] w, True))"

fun handleEvent :: "env \<Rightarrow> event \<Rightarrow> string set \<Rightarrow> string set \<times> bool" where
  "handleEvent e ev w =
     (case Op ev of
        Create \<Rightarrow> created e (Name ev) w
      | Rename \<Rightarrow> created e (Name ev) w
      | Write \<Rightarrow> created e (Name ev) w
      | Remove \<Rightarrow> (Remove_path (Name ev) w, True)
      | Chmod \<Rightarrow> (w, False)
      | Mixed \<Rightarrow> (w, True))"

text \<open>
  The handling of an event in \<^verbatim>\<open>src/rego.go\<close> (lines 176-198), inside the main
  loop:
  \<^verbatim>\<open>
  if ext := filepath.Ext(ev.Name); ext != ".go" { continue }
  if strings.HasPrefix(filepath.Base(ev.Name), ".") { continue }
  switch ev.Op {
  case fsnotify.Create: w.Add(ev.Name)
  case fsnotify.Remove: w.Remove(ev.Name)
  case fsnotify.Chmod:  continue
  }
  install <- struct{}{}
  \<close>
\<close>

definition handleEvent0 :: "env \<Rightarrow> event \<Rightarrow> string set \<Rightarrow> string set \<times> bool" where
  "handleEvent0 e ev w =
     (if Ext (Name ev) \<noteq> ''.go'' then (w, False)
      else if HasPrefix (Base (Name ev)) ''.'' then (w, False)
      else
        (case Op ev of
           Create \<Rightarrow> (Add e (Name ev) w, True)
         | Remove \<Rightarrow> (Remove_path (Name ev) w, True)
         | Chmod \<Rightarrow> (w, False)
         | _ \<Rightarrow> (w, True)))"

section \<open>What the handlers log\<close>

text \<open>
  The lines printed with \<^verbatim>\<open>log.Printf("Watch %s", path)\<close>, with
  \<^verbatim>\<open>log.Println(err)\<close> for an error about a path, with \<^verbatim>\<open>log.Println(ev)\<close>,
  and with \<^verbatim>\<open>log.Fatal(err)\<close> for an error of the watcher.
\<close>

datatype logline =
    LogWatch string
  | LogErr string
  | LogEvent event
  | LogFatal string

text \<open>
  In \<^verbatim>\<open>src/unnamed/part_000\<close> every line of the event goroutine is printed
  under \<^verbatim>\<open>if *verbose\<close>, the flag \<^verbatim>\<open>-v\<close>, here \<open>v\<close>. The function passed to
  \<^verbatim>\<open>filepath.Walk\<close> (lines 269-274):
  \<^verbatim>\<open>
  if err != nil {
      if *verbose { log.Println(err) }
      return nil
  }
  \<close>
\<close>

definition walkFnLog :: "bool \<Rightarrow> string \<Rightarrow> bool \<Rightarrow> logline list" where
  "walkFnLog v path err = (if err \<and> v then [LogErr path] else [])"

fun walkLog :: "bool \<Rightarrow> string \<Rightarrow> node \<Rightarrow> logline list"
  and walkEntriesLog :: "bool \<Rightarrow> string \<Rightarrow> (string \<times> node) list \<Rightarrow> logline list" where
  "walkLog v path File = walkFnLog v path False"
| "walkLog v path Unreadable = walkFnLog v path True"
| "walkLog v path (Directory entries) = walkFnLog v path False @ walkEntriesLog v path entries"
| "walkEntriesLog v dir [] = []"
| "walkEntriesLog v dir ((name, nd) # entries) =
     walkLog v (Join dir name) nd @ walkEntriesLog v dir entries"

text \<open>
  The loop over \<^verbatim>\<open>paths\<close> (lines 288-297):
  \<^verbatim>\<open>
  for _, path := range paths {
      if *verbose { log.Printf("Watch %s", path) }
      if err := w.Add(path); err != nil {
          if *verbose { log.Println(err) }
      }
  }
  \<close>
\<close>

fun addPathsLog :: "bool \<Rightarrow> env \<Rightarrow> string list \<Rightarrow> logline list" where
  "addPathsLog v e [] = []"
| "addPathsLog v e (path # paths) =
     (if v then [LogWatch path] else []) @
     (if addErr e path \<and> v then [LogErr path] else []) @
     addPathsLog v e paths"

text \<open>
  The case of a create, rename or write event (lines 258-297): the error of
  \<^verbatim>\<open>os.Stat\<close>, the errors of the walk, and the loop over \<^verbatim>\<open>paths\<close>.
  \<^verbatim>\<open>filepath.Walk\<close> itself returns no error, since the function passed to it
  returns none.
\<close>

definition createdLog :: "bool \<Rightarrow> env \<Rightarrow> string \<Rightarrow> logline list" where
  "createdLog v e name =
     (case stat e name of
        None \<Rightarrow> (if v then [LogErr name] else [])
      | Some fi \<Rightarrow>
          if IsDir fi then
            walkLog v name fi @ addPathsLog v e (Walk (extraPaths e) name fi [name])
          else if \<not> matchFile (extraPaths e) name then []
          else addPathsLog v e [name])"

text \<open>
  The whole goroutine: the case taken, with the error of \<^verbatim>\<open>w.Remove\<close> for a path
  that is not watched (lines 299-304), and \<^verbatim>\<open>log.Println(ev)\<close> before the signal
  is sent (lines 308-311).
\<close>

definition eventLog :: "bool \<Rightarrow> env \<Rightarrow> event \<Rightarrow> string set \<Rightarrow> logline list" where
  "eventLog v e ev w =
     (case Op ev of
        Create \<Rightarrow> createdLog v e (Name ev)
      | Rename \<Rightarrow> createdLog v e (Name ev)
      | Write \<Rightarrow> createdLog v e (Name ev)
      | Remove \<Rightarrow> (if Name ev \<notin> w \<and> v then [LogErr (Name ev)] else [])
      | Chmod \<Rightarrow> []
      | Mixed \<Rightarrow> []) @
     (if snd (handleEvent e ev w) \<and> v then [LogEvent ev] else [])"

text \<open>
  \<^verbatim>\<open>src/rego.go\<close> (lines 183-198) prints the error of \<^verbatim>\<open>w.Add\<close> and of
  \<^verbatim>\<open>w.Remove\<close> whatever the flag, and the event under \<^verbatim>\<open>-v\<close>:
  \<^verbatim>\<open>
  case fsnotify.Create:
      if err := w.Add(ev.Name); err != nil { log.Println(err) }
  case fsnotify.Remove:
      if err := w.Remove(ev.Name); err != nil { log.Println(err) }
  case fsnotify.Chmod:
      continue
  }
  if *verbose { log.Println(ev) }
  \<close>
\<close>

definition eventLog0 :: "bool \<Rightarrow> env \<Rightarrow> event \<Rightarrow> string set \<Rightarrow> logline list" where
  "eventLog0 v e ev w =
     (if Ext (Name ev) \<noteq> ''.go'' then []
      else if HasPrefix (Base (Name ev)) ''.'' then []
      else
        (case Op ev of
           Create \<Rightarrow> (if addErr e (Name ev) then [LogErr (Name ev)] else [])
         | Remove \<Rightarrow> (if Name ev \<notin> w then [LogErr (Name ev)] else [])
         | _ \<Rightarrow> []) @
        (if snd (handleEvent0 e ev w) \<and> v then [LogEvent ev] else []))"

section \<open>The main loop\<close>

text \<open>
  After startup the main goroutine waits on the watcher's two channels
  (\<^verbatim>\<open>src/unnamed/part_000\<close>, lines 248-321; \<^verbatim>\<open>src/rego.go\<close>, lines 169-207):
  \<^verbatim>\<open>
  for {
      select {
      case ev, ok := <-w.Events:
          if !ok { break }
          ...
      case err, ok := <-w.Errors:
          if !ok { break }
          if ok { log.Fatal(err) }
      }
  }
  \<close>
  \<^verbatim>\<open>break\<close> leaves the \<^verbatim>\<open>select\<close>, not the loop. \<^verbatim>\<open>log.Fatal\<close> prints the
  error and exits with status 1. The state is the watch set, the number of signals
  sent on \<^verbatim>\<open>install\<close>, the lines logged, and the exit status once the tool has
  exited. In \<^verbatim>\<open>src/unnamed/part_000\<close> the event is handled in a goroutine of its
  own, which is run here as soon as it is started.
\<close>

datatype message =
    Event event
  | EventsClosed
  | WatchError string
  | ErrorsClosed

record mainState =
  watched :: "string set"
  installs :: nat
  logged :: "logline list"
  status :: "nat option"

definition mainSelect :: "bool \<Rightarrow> env \<Rightarrow> message \<Rightarrow> mainState \<Rightarrow> mainState" where
  "mainSelect v e m s =
     (case m of
        Event ev \<Rightarrow>
          (let (w, sent) = handleEvent e ev (watched s) in
           s\<lparr>watched := w, installs := installs s + (if sent then 1 else 0),
             logged := logged s @ eventLog v e ev (watched s)\<rparr>)
      | EventsClosed \<Rightarrow> s
      | WatchError err \<Rightarrow> s\<lparr>logged := logged s @ [LogFatal err], status := Some 1\<rparr>
      | ErrorsClosed \<Rightarrow> s)"

definition mainSelect0 :: "bool \<Rightarrow> env \<Rightarrow> message \<Rightarrow> mainState \<Rightarrow> mainState" where
  "mainSelect0 v e m s =
     (case m of
        Event ev \<Rightarrow>
          (let (w, sent) = handleEvent0 e ev (watched s) in
           s\<lparr>watched := w, installs := installs s + (if sent then 1 else 0),
             logged := logged s @ eventLog0 v e ev (watched s)\<rparr>)
      | EventsClosed \<Rightarrow> s
      | WatchError err \<Rightarrow> s\<lparr>logged := logged s @ [LogFatal err], status := Some 1\<rparr>
      | ErrorsClosed \<Rightarrow> s)"

section \<open>Dependency resolution\<close>

text \<open>
  What the tool reads of a \<^verbatim>\<open>build.Package\<close>.
\<close>

record package =
  ImportPath :: string
  Dir :: string
  GoFiles :: "string list"
  Imports :: "string list"
  Goroot :: bool

text \<open>
  The two ways in which \<^verbatim>\<open>main\<close> ends during startup: \<^verbatim>\<open>log.Fatal\<close>, which
  exits with status 1, and a \<^verbatim>\<open>return\<close> from \<^verbatim>\<open>main\<close>, which ends the
  program with status 0 before any of its goroutines has been started.
\<close>

datatype stop = Fatal | Returned

text \<open>
  The variables of the resolution loop: the list \<^verbatim>\<open>pkgs\<close>, the keys of
  \<^verbatim>\<open>seenPkgs\<close>, and the paths the watcher \<^verbatim>\<open>w\<close> watches.
\<close>

record resolution =
  pkgs :: "package list"
  seenPkgs :: "string set"
  watches :: "string set"

text \<open>
  \<^verbatim>\<open>build.Import\<close> is a lookup in the finite table \<open>importer\<close> of the packages
  that exist, by import path; a path not in the table is an error.

  The loop over the imports of one package in \<^verbatim>\<open>src/unnamed/part_000\<close>
  (lines 90-119):
  \<^verbatim>\<open>
  for _, imp := range pkg.Imports {
      mu.Lock(); _, seen := seenPkgs[imp]; mu.Unlock()
      if seen { continue }
      if imp == "C" || strings.HasPrefix(imp, ".") { return }
      wg.Add(1)
      go func(imp string) {
          defer wg.Done()
          impPkg, err := build.Import(imp, workingDir, 0)
          if err != nil { log.Fatal(err) }
          mu.Lock(); defer mu.Unlock()
          pkgs = append(pkgs, impPkg)
          seenPkgs[imp] = struct{}{}
      }(imp)
  }
  wg.Wait()
  \<close>
  The \<^verbatim>\<open>return\<close> is a statement of \<^verbatim>\<open>main\<close> itself, outside the function
  literal: it does not wait for the goroutines started before it.

  The goroutine started for an import runs beside the loop. What it does to the
  shared variables, or to the program, happens in one step:
\<close>

definition goImport ::
  "(string \<times> package) list \<Rightarrow> string \<Rightarrow> package list \<Rightarrow> string set \<Rightarrow>
   stop + package list \<times> string set" where
  "goImport importer imp ps seen =
     (case map_of importer imp of
        None \<Rightarrow> Inl Fatal
      | Some impPkg \<Rightarrow> Inr (ps @ [impPkg], insert imp seen))"

text \<open>
  The order of the steps is given by a schedule, a list of turns: \<open>MainTurn\<close> lets
  the loop of \<^verbatim>\<open>main\<close> look at its next import (check \<^verbatim>\<open>seenPkgs\<close>, return, or
  start a goroutine), and \<open>GoTurn k\<close> lets the \<open>k\<close>-th of the goroutines that are
  running take its step. A turn that cannot be taken (the loop is over and
  \<^verbatim>\<open>main\<close> waits in \<^verbatim>\<open>wg.Wait()\<close>; there is no \<open>k\<close>-th goroutine) is skipped.
  When the schedule is used up, \<^verbatim>\<open>main\<close> goes through the imports that are left
  and then the goroutines take their steps in the order in which they were started.
  Every interleaving that the mutex and the wait group allow is the run of some
  schedule. The arguments are the schedule, the imports not yet looked at, the
  imports whose goroutines are running, \<^verbatim>\<open>pkgs\<close> and the keys of
  \<^verbatim>\<open>seenPkgs\<close>.
\<close>

datatype turn = MainTurn | GoTurn nat

fun importLoop ::
  "(string \<times> package) list \<Rightarrow> turn list \<Rightarrow> string list \<Rightarrow> string list \<Rightarrow>
   package list \<Rightarrow> string set \<Rightarrow> stop + package list \<times> string set" where
  "importLoop importer [] [] [] ps seen = Inr (ps, seen)"
| "importLoop importer [] [] (imp # running) ps seen =
     (case goImport importer imp ps seen of
        Inl x \<Rightarrow> Inl x
      | Inr (ps', seen') \<Rightarrow> importLoop importer [] [] running ps' seen')"
| "importLoop importer [] (imp # imps) running ps seen =
     (if imp \<in> seen then importLoop importer [] imps running ps seen
      else if imp = ''C'' \<or> HasPrefix imp ''.'' then Inl Returned
      else importLoop importer [] imps (running @ [imp]) ps seen)"
| "importLoop importer (MainTurn # sched) [] running ps seen =
     importLoop importer sched [] running ps seen"
| "importLoop importer (MainTurn # sched) (imp # imps) running ps seen =
     (if imp \<in> seen then importLoop importer sched imps running ps seen
      else if imp = ''C'' \<or> HasPrefix imp ''.'' then Inl Returned
      else importLoop importer sched imps (running @ [imp]) ps seen)"
| "importLoop importer (GoTurn k # sched) imps running ps seen =
     (if k < length running then
        (case goImport importer (running ! k) ps seen of
           Inl x \<Rightarrow> Inl x
         | Inr (ps', seen') \<Rightarrow>
             importLoop importer sched imps (take k running @ drop (Suc k) running) ps' seen')
      else importLoop importer sched imps running ps seen)"

text \<open>
  The loop over \<^verbatim>\<open>pkgs\<close>, which grows while it is traversed
  (\<^verbatim>\<open>src/unnamed/part_000\<close>, lines 72-120). \<open>addE\<close> tells whether
  \<^verbatim>\<open>w.Add\<close> of a path returns an error, and \<open>sched i\<close> is the schedule of the
  \<open>i\<close>-th iteration.
  \<^verbatim>\<open>
  for i := 0; i < len(pkgs); i++ {
      pkg := pkgs[i]
      if pkg.Goroot {
          continue // don't watch Go stdlib packages
      }
      if err := w.Add(pkg.Dir); err != nil { log.Fatal(err) }
      ... the loop over pkg.Imports ...
  }
  \<close>
\<close>

function resolveLoop ::
  "(string \<times> package) list \<Rightarrow> (string \<Rightarrow> bool) \<Rightarrow> (nat \<Rightarrow> turn list) \<Rightarrow> nat \<Rightarrow> resolution \<Rightarrow>
   stop + resolution" where
  "resolveLoop importer addE sched i r =
     (if i < length (pkgs r) then
        (let pkg = pkgs r ! i in
         if Goroot pkg then resolveLoop importer addE sched (i + 1) r
         else if addE (Dir pkg) then Inl Fatal
         else
           (case importLoop importer (sched i) (Imports pkg) [] (pkgs r) (seenPkgs r) of
              Inl x \<Rightarrow> Inl x
            | Inr (ps, seen) \<Rightarrow>
                resolveLoop importer addE sched (i + 1)
                  \<lparr>pkgs = ps, seenPkgs = seen, watches = insert (Dir pkg) (watches r)\<rparr>))
      else Inr r)"
  by pat_completeness auto
termination
proof (relation "measures
          [\<lambda>(importer, addE, sched, i, r). card (dom (map_of importer) - seenPkgs r),
           \<lambda>(importer, addE, sched, i, r). length (pkgs r) - i]", goal_cases)
  case 1
  show ?case by simp
next
  case (2 importer addE sched i r pkg)
  then show ?case by simp
next
  case (3 importer0 addE sched i r pkg x ps0 seen1)
  have grows: "seen \<subseteq> seen' \<and> length ps \<le> length ps' \<and>
         (running \<noteq> [] \<or> length ps < length ps' \<longrightarrow>
            (\<exists>x. x \<in> seen' \<and> x \<notin> seen0 \<and> map_of importer x \<noteq> None))"
    if "importLoop importer sch imps running ps seen = Inr (ps', seen')"
      and "seen0 \<subseteq> seen" and "set running \<inter> seen0 = {}"
    for importer sch imps running ps seen ps' seen' seen0
    using that
  proof (induction importer sch imps running ps seen rule: importLoop.induct)
    case (1 importer ps seen)
    then show ?case by simp
  next
    case (2 importer imp running ps seen)
    from "2.prems"(1) obtain ps1 seen1 where
      g: "goImport importer imp ps seen = Inr (ps1, seen1)" and
      r: "importLoop importer [] [] running ps1 seen1 = Inr (ps', seen')"
      by (auto split: sum.splits)
    from g obtain q where
      q: "map_of importer imp = Some q" "ps1 = ps @ [q]" "seen1 = insert imp seen"
      by (auto simp: goImport_def split: option.splits)
    have k: "imp \<in> fst ` set importer" using q(1) by (metis map_of_eq_None_iff option.distinct(1))
    have "seen0 \<subseteq> seen1" "set running \<inter> seen0 = {}" using "2.prems" q by auto
    from "2.IH" [OF g refl r this] have
      "seen1 \<subseteq> seen'" "length ps1 \<le> length ps'" by simp_all
    moreover have "imp \<notin> seen0" using "2.prems"(3) by auto
    ultimately have "seen \<subseteq> seen'" and "length ps < length ps'"
      and "imp \<in> seen'" and "imp \<notin> seen0"
      using q by auto
    with q(1) show ?case by auto
  next
    case (3 importer imp imps running ps seen)
    show ?case
    proof (cases "imp \<in> seen")
      case True
      with "3.prems" have "importLoop importer [] imps running ps seen = Inr (ps', seen')" by simp
      from "3.IH"(1) [OF True this "3.prems"(2,3)] show ?thesis .
    next
      case False
      with "3.prems" have c: "\<not> (imp = ''C'' \<or> HasPrefix imp ''.'')"
        and r: "importLoop importer [] imps (running @ [imp]) ps seen = Inr (ps', seen')"
        by (auto split: if_splits)
      have "set (running @ [imp]) \<inter> seen0 = {}" using "3.prems"(2,3) False by auto
      from "3.IH"(2) [OF False c r "3.prems"(2) this] show ?thesis by simp
    qed
  next
    case (4 importer sched running ps seen)
    then show ?case by simp
  next
    case (5 importer sched imp imps running ps seen)
    show ?case
    proof (cases "imp \<in> seen")
      case True
      with "5.prems" have "importLoop importer sched imps running ps seen = Inr (ps', seen')" by simp
      from "5.IH"(1) [OF True this "5.prems"(2,3)] show ?thesis .
    next
      case False
      with "5.prems" have c: "\<not> (imp = ''C'' \<or> HasPrefix imp ''.'')"
        and r: "importLoop importer sched imps (running @ [imp]) ps seen = Inr (ps', seen')"
        by (auto split: if_splits)
      have "set (running @ [imp]) \<inter> seen0 = {}" using "5.prems"(2,3) False by auto
      from "5.IH"(2) [OF False c r "5.prems"(2) this] show ?thesis by simp
    qed
  next
    case (6 importer k sched imps running ps seen)
    show ?case
    proof (cases "k < length running")
      case False
      with "6.prems" have "importLoop importer sched imps running ps seen = Inr (ps', seen')" by simp
      from "6.IH"(2) [OF False this "6.prems"(2,3)] show ?thesis .
    next
      case True
      let ?rest = "take k running @ drop (Suc k) running"
      from True "6.prems"(1) obtain ps1 seen1 where
        g: "goImport importer (running ! k) ps seen = Inr (ps1, seen1)" and
        r: "importLoop importer sched imps ?rest ps1 seen1 = Inr (ps', seen')"
        by (auto split: sum.splits)
      from g obtain q where
        q: "map_of importer (running ! k) = Some q" "ps1 = ps @ [q]"
           "seen1 = insert (running ! k) seen"
        by (auto simp: goImport_def split: option.splits)
      have k: "running ! k \<in> fst ` set importer"
        using q(1) by (metis map_of_eq_None_iff option.distinct(1))
      have sub: "set ?rest \<subseteq> set running"
        by (auto dest: in_set_takeD in_set_dropD)
      have "seen0 \<subseteq> seen1" "set ?rest \<inter> seen0 = {}" using "6.prems" q sub by auto
      from "6.IH"(1) [OF True g refl r this] have
        "seen1 \<subseteq> seen'" "length ps1 \<le> length ps'" by simp_all
      moreover have "running ! k \<notin> seen0" using "6.prems"(3) True by (auto dest: nth_mem)
      ultimately have "seen \<subseteq> seen'" and "length ps < length ps'"
        and "running ! k \<in> seen'" and "running ! k \<notin> seen0"
        using q by auto
      with q(1) show ?thesis by auto
    qed
  qed
  from 3 have run: "importLoop importer0 (sched i) (Imports (pkgs r ! i)) [] (pkgs r) (seenPkgs r) =
                  Inr (ps0, seen1)"
    by simp
  from grows [OF run, of "seenPkgs r"] have
    sub: "seenPkgs r \<subseteq> seen1" and len: "length (pkgs r) \<le> length ps0" and
    new: "length (pkgs r) < length ps0 \<Longrightarrow>
          \<exists>x. x \<in> seen1 \<and> x \<notin> seenPkgs r \<and> map_of importer0 x \<noteq> None"
    by simp_all
  let ?K = "dom (map_of importer0)"
  have fin: "finite (?K - seenPkgs r)" by (simp add: finite_dom_map_of)
  show ?case
  proof (cases "length (pkgs r) < length ps0")
    case True
    from new [OF True] obtain x where "x \<in> seen1" "x \<notin> seenPkgs r" "x \<in> ?K" by auto
    with sub have "?K - seen1 \<subset> ?K - seenPkgs r" by auto
    from psubset_card_mono [OF fin this] show ?thesis by simp
  next
    case False
    with len have eq: "length ps0 = length (pkgs r)" by simp
    from sub have "?K - seen1 \<subseteq> ?K - seenPkgs r" by auto
    from card_mono [OF fin this] eq 3(1) show ?thesis by auto
  qed
qed

text \<open>
  Resolution starts from the main package, with nothing seen and nothing watched
  (lines 72-73).
\<close>

definition resolve ::
  "(string \<times> package) list \<Rightarrow> (string \<Rightarrow> bool) \<Rightarrow> (nat \<Rightarrow> turn list) \<Rightarrow> package \<Rightarrow>
   stop + resolution" where
  "resolve importer addE sched mainPkg =
     resolveLoop importer addE sched 0 \<lparr>pkgs = [mainPkg], seenPkgs = {}, watches = {}\<rparr>"

text \<open>
  The earlier iteration, \<^verbatim>\<open>src/rego.go\<close> (lines 60-89), has no test of
  \<^verbatim>\<open>Goroot\<close>, watches every source file of every package, imports one package
  after the other, and skips the import \<^verbatim>\<open>"C"\<close> with \<^verbatim>\<open>continue\<close>:
  \<^verbatim>\<open>
  for i := 0; i < len(pkgs); i++ {
      pkg := pkgs[i]
      if err := w.Add(pkg.Dir); err != nil { log.Fatal(err) }
      for _, file := range pkg.GoFiles {
          srcFile := filepath.Join(pkg.Dir, file)
          if err := w.Add(srcFile); err != nil { log.Fatal(err) }
      }
      for _, imp := range pkg.Imports {
          if _, seen := seenPkgs[imp]; !seen {
              if imp == "C" { continue }
              impPkg, err := build.Import(imp, "", 0)
              if err != nil { log.Fatal(err) }
              pkgs = append(pkgs, impPkg)
              seenPkgs[imp] = struct{}{}
          }
      }
  }
  \<close>
\<close>

fun importLoop0 ::
  "(string \<times> package) list \<Rightarrow> string list \<Rightarrow> package list \<Rightarrow> string set \<Rightarrow>
   stop + package list \<times> string set" where
  "importLoop0 importer [] ps seen = Inr (ps, seen)"
| "importLoop0 importer (imp # imps) ps seen =
     (if imp \<notin> seen then
        (if imp = ''C'' then importLoop0 importer imps ps seen
         else
           (case map_of importer imp of
              None \<Rightarrow> Inl Fatal
            | Some impPkg \<Rightarrow> importLoop0 importer imps (ps @ [impPkg]) (insert imp seen)))
      else importLoop0 importer imps ps seen)"

fun watchFiles :: "(string \<Rightarrow> bool) \<Rightarrow> string \<Rightarrow> string list \<Rightarrow> string set \<Rightarrow> stop + string set" where
  "watchFiles addE dir [] w = Inr w"
| "watchFiles addE dir (file # files) w =
     (let srcFile = Join dir file in
      if addE srcFile then Inl Fatal else watchFiles addE dir files (insert srcFile w))"

function resolveLoop0 ::
  "(string \<times> package) list \<Rightarrow> (string \<Rightarrow> bool) \<Rightarrow> nat \<Rightarrow> resolution \<Rightarrow> stop + resolution" where
  "resolveLoop0 importer addE i r =
     (if i < length (pkgs r) then
        (let pkg = pkgs r ! i in
         if addE (Dir pkg) then Inl Fatal
         else
           (case watchFiles addE (Dir pkg) (GoFiles pkg) (insert (Dir pkg) (watches r)) of
              Inl x \<Rightarrow> Inl x
            | Inr w \<Rightarrow>
                (case importLoop0 importer (Imports pkg) (pkgs r) (seenPkgs r) of
                   Inl x \<Rightarrow> Inl x
                 | Inr (ps, seen) \<Rightarrow>
                     resolveLoop0 importer addE (i + 1)
                       \<lparr>pkgs = ps, seenPkgs = seen, watches = w\<rparr>)))
      else Inr r)"
  by pat_completeness auto
termination
proof (relation "measure (\<lambda>(importer, addE, i, r).
          card (fst ` set importer - seenPkgs r) + (length (pkgs r) - i))", goal_cases)
  case 1
  show ?case by simp
next
  case (2 importer addE i r pkg w x ps seen)
  have grows: "length ps' + card (fst ` set importer - seen') =
                 length ps0 + card (fst ` set importer - seen0) \<and> length ps0 \<le> length ps'"
    if "importLoop0 importer imps ps0 seen0 = Inr (ps', seen')" for imps ps0 seen0 ps' seen'
    using that
  proof (induction imps arbitrary: ps0 seen0)
    case Nil
    then show ?case by simp
  next
    case (Cons imp imps)
    show ?case
    proof (cases "imp \<in> seen0 \<or> imp = ''C''")
      case True
      with Cons.prems have "importLoop0 importer imps ps0 seen0 = Inr (ps', seen')"
        by (simp split: if_splits)
      from Cons.IH [OF this] show ?thesis .
    next
      case False
      with Cons.prems obtain impPkg where
        found: "map_of importer imp = Some impPkg" and
        rest: "importLoop0 importer imps (ps0 @ [impPkg]) (insert imp seen0) = Inr (ps', seen')"
        by (auto split: if_splits option.splits)
      from found have "imp \<in> fst ` set importer"
        by (metis map_of_eq_None_iff option.distinct(1))
      with False have "card (fst ` set importer - insert imp seen0) + 1 =
                       card (fst ` set importer - seen0)"
        by (metis DiffI List.finite_set Suc_eq_plus1 card_Suc_Diff1 finite_Diff finite_imageI
              Diff_insert)
      with Cons.IH [OF rest] show ?thesis by simp
    qed
  qed
  from 2 have "importLoop0 importer (Imports (pkgs r ! i)) (pkgs r) (seenPkgs r) = Inr (ps, seen)"
    by simp
  from grows [OF this] 2(1) show ?case by simp linarith
qed

definition resolve0 :: "(string \<times> package) list \<Rightarrow> (string \<Rightarrow> bool) \<Rightarrow> package \<Rightarrow> stop + resolution" where
  "resolve0 importer addE mainPkg =
     resolveLoop0 importer addE 0 \<lparr>pkgs = [mainPkg], seenPkgs = {}, watches = {}\<rparr>"





subsection \<open>A small workspace\<close>

text \<open>
  Two programs, \<^verbatim>\<open>app\<close> and \<^verbatim>\<open>cgoapp\<close>, a library of theirs, and two
  packages of the standard library.
\<close>

definition appPkg :: package where
  "appPkg = \<lparr>ImportPath = ''app'', Dir = ''/src/app'', GoFiles = [''main.go''],
             Imports = [''app/lib'', ''fmt''], Goroot = False\<rparr>"

definition libPkg :: package where
  "libPkg = \<lparr>ImportPath = ''app/lib'', Dir = ''/src/app/lib'', GoFiles = [''lib.go''],
             Imports = [''fmt''], Goroot = False\<rparr>"

definition fmtPkg :: package where
  "fmtPkg = \<lparr>ImportPath = ''fmt'', Dir = ''/go/src/fmt'', GoFiles = [''print.go''],
             Imports = [''errors''], Goroot = True\<rparr>"

definition errorsPkg :: package where
  "errorsPkg = \<lparr>ImportPath = ''errors'', Dir = ''/go/src/errors'', GoFiles = [''errors.go''],
                Imports = [], Goroot = True\<rparr>"

definition cgoPkg :: package where
  "cgoPkg = \<lparr>ImportPath = ''cgoapp'', Dir = ''/src/cgoapp'', GoFiles = [''main.go''],
             Imports = [''C'', ''app/lib''], Goroot = False\<rparr>"

definition goPath :: "(string \<times> package) list" where
  "goPath = [(''app'', appPkg), (''app/lib'', libPkg), (''fmt'', fmtPkg), (''errors'', errorsPkg),
             (''cgoapp'', cgoPkg)]"

section \<open>Startup and the run of the main loop\<close>









section \<open>Properties of the install loop\<close>

lemmas installLoop_unfold = installLoop.simps

declare installLoop.simps [simp del]

lemma installLoop_idle: "needsInstall st = 0 \<Longrightarrow> installLoop dur st [] = st"
  by (subst installLoop_unfold) (simp add: timerChan_def)

lemma installLoop_armed:
  "0 < needsInstall st \<Longrightarrow> burst (clock st) ts \<Longrightarrow>
   rest = [] \<or> foldl max (clock st) ts + quiet \<le> hd rest \<Longrightarrow>
   installLoop dur st (ts @ rest) =
     installLoop dur
       (st\<lparr>needsInstall := 0,
           clock := foldl max (clock st) ts + quiet + dur (foldl max (clock st) ts + quiet),
           calls := calls st @ [foldl max (clock st) ts + quiet]\<rparr>) rest"
proof (induction ts arbitrary: st)
  case Nil
  have fire: "installLoop dur st rest = installLoop dur (timerFired dur (clock st + quiet) st) rest"
    using Nil.prems(1,3)
    by (subst installLoop_unfold) (auto simp: timerChan_def split: list.splits)
  show ?case by (simp add: fire) (simp add: timerFired_def)
next
  case (Cons t ts)
  let ?st' = "recvInstall t st"
  from Cons.prems have t: "t < clock st + quiet" "burst (max (clock st) t) ts"
    by simp_all
  have c: "clock ?st' = max (clock st) t" by (simp add: recvInstall_def)
  have "installLoop dur st ((t # ts) @ rest) = installLoop dur ?st' (ts @ rest)"
    using Cons.prems(1) t by (subst installLoop_unfold) (simp add: timerChan_def)
  also have "\<dots> = installLoop dur
       (?st'\<lparr>needsInstall := 0,
           clock := foldl max (clock ?st') ts + quiet + dur (foldl max (clock ?st') ts + quiet),
           calls := calls ?st' @ [foldl max (clock ?st') ts + quiet]\<rparr>) rest"
    using t Cons.prems(3) by (intro Cons.IH) (simp_all add: recvInstall_def)
  finally show ?case
    by (simp add: c) (simp add: recvInstall_def)
qed

text \<open>
  C1. Whenever the loop is idle (counter zero) and a burst of \<open>K \<ge> 1\<close> install signals
  comes, the first ready at \<open>t\<close> and each later one ready before the timer armed at
  the receipt of the one before it fires, the loop calls \<^verbatim>\<open>installAndRestart\<close>
  exactly once for the burst: when the timer armed at the last receipt expires, one
  quiet period after that receipt, with the counter back at zero. It then goes on,
  idle again, with the signals \<open>rest\<close> that come after the burst (none of them ready
  before that expiry), so the same holds of every burst of a run, also of one whose
  signals were sent while a build was running. With no signal at all the idle loop
  calls nothing.
\<close>

theorem burst_builds_once:
  assumes "needsInstall st = 0"
    and "burst (max (clock st) t) ts"
    and "rest = [] \<or> foldl max (max (clock st) t) ts + quiet \<le> hd rest"
  shows "installLoop dur st (t # ts @ rest) =
           installLoop dur
             (st\<lparr>needsInstall := 0,
                 clock := foldl max (max (clock st) t) ts + quiet +
                          dur (foldl max (max (clock st) t) ts + quiet),
                 calls := calls st @ [foldl max (max (clock st) t) ts + quiet]\<rparr>) rest \<and>
         installLoop dur st [] = st"
proof -
  let ?st' = "recvInstall t st"
  have c: "clock ?st' = max (clock st) t" by (simp add: recvInstall_def)
  have "installLoop dur st (t # ts @ rest) = installLoop dur ?st' (ts @ rest)"
    using assms(1) by (subst installLoop_unfold) (simp add: timerChan_def)
  also have "\<dots> = installLoop dur
       (?st'\<lparr>needsInstall := 0,
           clock := foldl max (clock ?st') ts + quiet + dur (foldl max (clock ?st') ts + quiet),
           calls := calls ?st' @ [foldl max (clock ?st') ts + quiet]\<rparr>) rest"
    using assms(2,3) c by (intro installLoop_armed) (simp_all add: recvInstall_def)
  finally have "installLoop dur st (t # ts @ rest) =
           installLoop dur
             (st\<lparr>needsInstall := 0,
                 clock := foldl max (max (clock st) t) ts + quiet +
                          dur (foldl max (max (clock st) t) ts + quiet),
                 calls := calls st @ [foldl max (max (clock st) t) ts + quiet]\<rparr>) rest"
    by (simp add: c) (simp add: recvInstall_def)
  with installLoop_idle [OF assms(1)] show ?thesis by simp
qed

text \<open>
  Three bursts in one run, each build taking 1500 ms: signals at 10, 60 and 180 ms,
  one at 500 ms, sent while the first build runs and received when it ends, and one
  at 5000 ms. Three builds, at 380, 2080 and 5200 ms.
\<close>

theorem burst_builds_once_witness:
  "installLoop (\<lambda>d. 1500) \<lparr>needsInstall = 0, clock = 0, calls = []\<rparr> [10, 60, 180, 500, 5000] =
     \<lparr>needsInstall = 0, clock = 6700, calls = [380, 2080, 5200]\<rparr>"
proof -
  have a: "installLoop (\<lambda>d. 1500) \<lparr>needsInstall = 0, clock = 0, calls = []\<rparr> [10, 60, 180, 500, 5000] =
        installLoop (\<lambda>d. 1500) \<lparr>needsInstall = 0, clock = 1880, calls = [380]\<rparr> [500, 5000]"
    using burst_builds_once [of "\<lparr>needsInstall = 0, clock = 0, calls = []\<rparr>" 10 "[60, 180]"
            "[500, 5000]" "\<lambda>d. 1500"]
    by (simp add: quiet_def)
  have b: "installLoop (\<lambda>d. 1500) \<lparr>needsInstall = 0, clock = 1880, calls = [380]\<rparr> [500, 5000] =
        installLoop (\<lambda>d. 1500) \<lparr>needsInstall = 0, clock = 3580, calls = [380, 2080]\<rparr> [5000]"
    using burst_builds_once [of "\<lparr>needsInstall = 0, clock = 1880, calls = [380]\<rparr>" 500 "[]"
            "[5000]" "\<lambda>d. 1500"]
    by (simp add: quiet_def)
  have c: "installLoop (\<lambda>d. 1500) \<lparr>needsInstall = 0, clock = 3580, calls = [380, 2080]\<rparr> [5000] =
        \<lparr>needsInstall = 0, clock = 6700, calls = [380, 2080, 5200]\<rparr>"
    using burst_builds_once [of "\<lparr>needsInstall = 0, clock = 3580, calls = [380, 2080]\<rparr>" 5000 "[]"
            "[]" "\<lambda>d. 1500"]
      burst_builds_once [of "\<lparr>needsInstall = 0, clock = 6700, calls = [380, 2080, 5200]\<rparr>" 0 "[]"
            "[]" "\<lambda>d. 1500"]
    by (simp add: quiet_def)
  from a b c show ?thesis by simp
qed

section \<open>Properties of supervision\<close>

text \<open>
  C4. On every successful build a restart request is sent, and the supervisor serves
  it so: if a supervised process \<open>p\<close> is running it interrupts \<open>p\<close> (killing it if the
  signal cannot be delivered) and waits for it to exit; only then, and at once when
  no process is running, it starts the new instance, whose process becomes the
  supervised one. Both iterations do the same.
\<close>

theorem restart_after_successful_build:
  "buildCycle sigErr started True (b, s) =
     (b\<lparr>nrestarts := nrestarts b + 1,
        printed := printed b @ [if nrestarts b = 0 then ''starting'' else ''restarting'']\<rparr>,
      s\<lparr>acts := acts s @
                 (case proc s of
                    None \<Rightarrow> []
                  | Some p \<Rightarrow> [Interrupt p] @ (if sigErr p then [Kill p] else []) @ [Wait p]) @
                 [Start started],
        proc := started\<rparr>) \<and>
   buildCycle0 sigErr started True (b, s) = buildCycle sigErr started True (b, s)"
  by (simp add: buildCycle_def buildCycle0_def installAndRestart_def deliver_def
        onRestart_def onRestart0_def stopProc_def split: option.split)

text \<open>The first build, with no process yet, and the second, with process 7 running.\<close>

theorem restart_after_successful_build_witness:
  "buildCycle (\<lambda>p. False) (Some 7) True
     (\<lparr>nrestarts = 0, printed = []\<rparr>, \<lparr>proc = None, acts = [], exited = None\<rparr>) =
   (\<lparr>nrestarts = 1, printed = [''starting'']\<rparr>,
    \<lparr>proc = Some 7, acts = [Start (Some 7)], exited = None\<rparr>) \<and>
   buildCycle (\<lambda>p. False) (Some 8) True
     (\<lparr>nrestarts = 1, printed = [''starting'']\<rparr>,
      \<lparr>proc = Some 7, acts = [Start (Some 7)], exited = None\<rparr>) =
   (\<lparr>nrestarts = 2, printed = [''starting'', ''restarting'']\<rparr>,
    \<lparr>proc = Some 8, acts = [Start (Some 7), Interrupt 7, Wait 7, Start (Some 8)],
      exited = None\<rparr>)"
  using restart_after_successful_build
    [of "\<lambda>p. False" "Some 7" "\<lparr>nrestarts = 0, printed = []\<rparr>"
        "\<lparr>proc = None, acts = [], exited = None\<rparr>"]
    restart_after_successful_build
    [of "\<lambda>p. False" "Some 8" "\<lparr>nrestarts = 1, printed = [''starting'']\<rparr>"
        "\<lparr>proc = Some 7, acts = [Start (Some 7)], exited = None\<rparr>"]
  by simp

text \<open>
  C5. When the build command fails, nothing is sent on \<^verbatim>\<open>restart\<close>: the supervisor
  and its process are as they were, and the install loop, whose counter was cleared
  before the build, has no timer armed and waits for the next signal.
\<close>

theorem failed_build_leaves_process:
  "snd (installAndRestart False b) = None \<and>
   snd (buildCycle sigErr started False (b, s)) = s \<and>
   nrestarts (fst (buildCycle sigErr started False (b, s))) = nrestarts b \<and>
   timerChan (timerFired dur d st) = None"
  by (simp add: buildCycle_def installAndRestart_def deliver_def timerChan_def timerFired_def)

lemma supervisorLoop_restarts:
  "exited s = None \<Longrightarrow>
   supervisorLoop sigErr (map (Pair True) starts @ rs) s =
     supervisorLoop sigErr rs (foldl (\<lambda>s started. onRestart sigErr started True s) s starts) \<and>
   exited (foldl (\<lambda>s started. onRestart sigErr started True s) s starts) = None \<and>
   proc (foldl (\<lambda>s started. onRestart sigErr started True s) s starts) = last (proc s # starts)"
proof (induction starts arbitrary: s)
  case Nil
  then show ?case by simp
next
  case (Cons st starts)
  let ?s' = "onRestart sigErr st True s"
  have e: "exited ?s' = None" and p: "proc ?s' = st"
    using Cons.prems by (simp_all add: onRestart_def stopProc_def split: option.split)
  from Cons.IH [OF e] e p show ?case by (simp add: Let_def)
qed

text \<open>
  C9. Each of the three termination signals makes the signal goroutine send a
  shutdown request. Whatever restart requests the running tool has served before,
  the supervisor then serves the shutdown request: it interrupts the child that the
  last restart left running (killing it if the signal cannot be delivered), waits
  for it, and only then exits the tool with status 0; without a child it exits at
  once. No later request is served.
\<close>

theorem shutdown_on_signal:
  assumes "exited s = None"
  shows "supervisorLoop sigErr (map (Pair True) starts @ (False, started) # rs) s =
           deliver sigErr started (onSignal sig) (restarts sigErr starts s) \<and>
         deliver sigErr started (onSignal sig) (restarts sigErr starts s) =
           (case last (proc s # starts) of
              None \<Rightarrow>
                (restarts sigErr starts s)
                  \<lparr>acts := acts (restarts sigErr starts s) @ [OsExit 0], exited := Some 0\<rparr>
            | Some p \<Rightarrow>
                (restarts sigErr starts s)
                  \<lparr>acts := acts (restarts sigErr starts s) @ [Interrupt p] @
                            (if sigErr p then [Kill p] else []) @ [Wait p, OsExit 0],
                   exited := Some 0\<rparr>)"
proof -
  let ?s' = "restarts sigErr starts s"
  from supervisorLoop_restarts [OF assms(1), of sigErr starts "(False, started) # rs"]
  have loop: "supervisorLoop sigErr (map (Pair True) starts @ (False, started) # rs) s =
                supervisorLoop sigErr ((False, started) # rs) ?s'"
    and p: "proc ?s' = last (proc s # starts)"
    unfolding restarts_def by blast+
  have one: "supervisorLoop sigErr ((False, started) # rs) ?s' =
             deliver sigErr started (onSignal sig) ?s'"
    by (simp add: deliver_def onSignal_def onRestart_def stopProc_def Let_def split: option.split)
  have two: "deliver sigErr started (onSignal sig) ?s' =
           (case proc ?s' of
              None \<Rightarrow> ?s'\<lparr>acts := acts ?s' @ [OsExit 0], exited := Some 0\<rparr>
            | Some p \<Rightarrow>
                ?s'\<lparr>acts := acts ?s' @ [Interrupt p] @ (if sigErr p then [Kill p] else []) @
                            [Wait p, OsExit 0],
                   exited := Some 0\<rparr>)"
    by (simp add: deliver_def onSignal_def onRestart_def stopProc_def Let_def split: option.split)
  from loop one have first: "supervisorLoop sigErr (map (Pair True) starts @ (False, started) # rs) s =
             deliver sigErr started (onSignal sig) ?s'"
    by (rule trans)
  from first two [unfolded p] show ?thesis by (rule conjI)
qed

text \<open>
  A first build starts process 7; then an interrupt arrives; a restart request
  after it is not served.
\<close>

theorem shutdown_on_signal_witness:
  "supervisorLoop (\<lambda>p. False) [(True, Some 7), (False, None), (True, Some 8)]
     \<lparr>proc = None, acts = [], exited = None\<rparr> =
   \<lparr>proc = Some 7, acts = [Start (Some 7), Interrupt 7, Wait 7, OsExit 0], exited = Some 0\<rparr>"
proof -
  have running: "exited \<lparr>proc = None, acts = [], exited = None\<rparr> = None" by simp
  have served: "restarts (\<lambda>p. False) [Some 7] \<lparr>proc = None, acts = [], exited = None\<rparr> =
                \<lparr>proc = Some 7, acts = [Start (Some 7)], exited = None\<rparr>"
    by (simp add: restarts_def onRestart_def stopProc_def)
  from shutdown_on_signal [OF running, of "\<lambda>p. False" "[Some 7]" None "[(True, Some 8)]" SIGINT]
  show ?thesis unfolding served by (simp del: supervisorLoop.simps)
qed

section \<open>Properties of event handling\<close>

lemma created_file_no_match:
  "stat e name = Some File \<Longrightarrow> \<not> matchFile (extraPaths e) name \<Longrightarrow> created e name w = (w, False)"
  by (simp add: created_def)

lemma created_file_match:
  "stat e name = Some File \<Longrightarrow> matchFile (extraPaths e) name \<Longrightarrow>
   created e name w = (Add e name w, True)"
  by (simp add: created_def)

text \<open>
  C6, as stated, fails on \<^verbatim>\<open>src/unnamed/part_000\<close>, where only the case of
  create, rename and write events has the filter. The removal of
  \<^verbatim>\<open>/w/notes.txt\<close>, which has not the watched extension and is no extra path,
  sends a signal on \<^verbatim>\<open>install\<close>; so does an event on it that carries several
  kinds at once, such as a write with a chmod, which no case of the \<^verbatim>\<open>switch\<close>
  matches.
\<close>

theorem remove_of_other_file_triggers:
  "Ext ''/w/notes.txt'' \<noteq> ''.go'' \<and>
   ''/w/notes.txt'' \<notin> extraPaths \<lparr>stat = (\<lambda>p. None), addErr = (\<lambda>p. False), extraPaths = {}\<rparr> \<and>
   handleEvent \<lparr>stat = (\<lambda>p. None), addErr = (\<lambda>p. False), extraPaths = {}\<rparr>
     \<lparr>Name = ''/w/notes.txt'', Op = Remove\<rparr> {''/w''} = ({''/w''}, True) \<and>
   handleEvent \<lparr>stat = (\<lambda>p. Some File), addErr = (\<lambda>p. False), extraPaths = {}\<rparr>
     \<lparr>Name = ''/w/notes.txt'', Op = Mixed\<rparr> {''/w''} = ({''/w''}, True)"
  by (simp add: Ext_def IsPathSeparator_def Remove_path_def)

text \<open>
  C6, amended. In \<^verbatim>\<open>src/unnamed/part_000\<close>, an event of exactly one of the
  kinds create, rename, write and chmod whose path is a file (or a file that is gone)
  without the watched extension and outside the extra paths is ignored: the watch
  set is unchanged and no install signal is sent. A remove event is not filtered: it
  takes the path out of the watch set and sends the signal. An event that carries
  several kinds at once is matched by no case and sends the signal with the watch
  set unchanged. In \<^verbatim>\<open>src/rego.go\<close> every event on a path without the watched
  extension is ignored.
\<close>

theorem other_file_event_ignored:
  assumes "stat e (Name ev) = Some File \<or> stat e (Name ev) = None"
    and "Ext (Name ev) \<noteq> ''.go''"
    and "Name ev \<notin> extraPaths e"
  shows "handleEvent e ev w =
           (case Op ev of
              Create \<Rightarrow> (w, False)
            | Write \<Rightarrow> (w, False)
            | Remove \<Rightarrow> (w - {Name ev}, True)
            | Rename \<Rightarrow> (w, False)
            | Chmod \<Rightarrow> (w, False)
            | Mixed \<Rightarrow> (w, True)) \<and>
         handleEvent0 e ev w = (w, False)"
proof -
  have nm: "\<not> matchFile (extraPaths e) (Name ev)"
    using assms(2,3) by (simp add: matchFile_def)
  have c: "created e (Name ev) w = (w, False)"
    using assms(1) nm by (auto simp: created_def)
  have new: "handleEvent e ev w =
           (case Op ev of
              Create \<Rightarrow> (w, False)
            | Write \<Rightarrow> (w, False)
            | Remove \<Rightarrow> (w - {Name ev}, True)
            | Rename \<Rightarrow> (w, False)
            | Chmod \<Rightarrow> (w, False)
            | Mixed \<Rightarrow> (w, True))"
    using c by (cases "Op ev") (simp_all add: Remove_path_def)
  have old: "handleEvent0 e ev w = (w, False)"
    using assms(2) by (simp add: handleEvent0_def)
  from new old show ?thesis by (rule conjI)
qed

theorem other_file_event_ignored_witness:
  "handleEvent \<lparr>stat = (\<lambda>p. Some File), addErr = (\<lambda>p. False), extraPaths = {}\<rparr>
     \<lparr>Name = ''/w/notes.txt'', Op = Write\<rparr> {''/w''} = ({''/w''}, False) \<and>
   handleEvent0 \<lparr>stat = (\<lambda>p. Some File), addErr = (\<lambda>p. False), extraPaths = {}\<rparr>
     \<lparr>Name = ''/w/notes.txt'', Op = Write\<rparr> {''/w''} = ({''/w''}, False) \<and>
   handleEvent \<lparr>stat = (\<lambda>p. None), addErr = (\<lambda>p. False), extraPaths = {}\<rparr>
     \<lparr>Name = ''/w/notes.txt'', Op = Remove\<rparr> {''/w'', ''/w/notes.txt''} = ({''/w''}, True)"
  using other_file_event_ignored
    [of "\<lparr>stat = (\<lambda>p. Some File), addErr = (\<lambda>p. False), extraPaths = {}\<rparr>"
        "\<lparr>Name = ''/w/notes.txt'', Op = Write\<rparr>" "{''/w''}"]
    other_file_event_ignored
    [of "\<lparr>stat = (\<lambda>p. None), addErr = (\<lambda>p. False), extraPaths = {}\<rparr>"
        "\<lparr>Name = ''/w/notes.txt'', Op = Remove\<rparr>" "{''/w'', ''/w/notes.txt''}"]
  by (auto simp add: Ext_def IsPathSeparator_def)

text \<open>
  C7 at an input on which the code misses it. \<^verbatim>\<open>/w/sub/conf.yaml\<close> is an extra
  path, so \<^verbatim>\<open>matchFile\<close> accepts it; the walk started by the creation of the
  directory \<^verbatim>\<open>/w/sub\<close> calls \<^verbatim>\<open>matchFile\<close> on the base name
  \<^verbatim>\<open>conf.yaml\<close> instead, and the file is not added to the watch set. The
  directory and the Go file in it are.
\<close>

theorem walk_misses_nested_extra_path:
  "matchFile {''/w/sub/conf.yaml''} ''/w/sub/conf.yaml'' \<and>
   handleEvent
     \<lparr>stat = (\<lambda>p. if p = ''/w/sub'' then Some (Directory [(''a.go'', File), (''conf.yaml'', File)])
                    else None),
      addErr = (\<lambda>p. False),
      extraPaths = {''/w/sub/conf.yaml''}\<rparr>
     \<lparr>Name = ''/w/sub'', Op = Create\<rparr> {''/w''} =
   ({''/w'', ''/w/sub'', ''/w/sub/a.go''}, True)"
  by (auto simp add: created_def Walk_def walkFn_def matchFile_def Ext_def Base_def Join_def
        HasPrefix_def IsPathSeparator_def Add_def)

text \<open>
  C10. For a file whose base name begins with a dot, whatever its extension: an
  event of exactly the kind create, rename or write is ignored (watch set unchanged,
  no install signal) unless the path is an extra path, in which case the path is
  added to the watch set and the signal is sent; this is what the claim says. But in
  \<^verbatim>\<open>src/unnamed/part_000\<close> a create or write event that carries another kind as
  well (\<open>Mixed\<close>) is matched by no case of the \<^verbatim>\<open>switch\<close>, so \<^verbatim>\<open>matchFile\<close> is
  never called and the signal is sent for the dot file. \<^verbatim>\<open>src/rego.go\<close>, whose
  test of the name comes before the \<^verbatim>\<open>switch\<close>, ignores every event on such a
  file.
\<close>

theorem dot_file_event_ignored:
  assumes "stat e (Name ev) = Some File"
    and "HasPrefix (Base (Name ev)) ''.''"
  shows "handleEvent e ev w =
           (case Op ev of
              Create \<Rightarrow> (if Name ev \<in> extraPaths e then (Add e (Name ev) w, True) else (w, False))
            | Write \<Rightarrow> (if Name ev \<in> extraPaths e then (Add e (Name ev) w, True) else (w, False))
            | Remove \<Rightarrow> (w - {Name ev}, True)
            | Rename \<Rightarrow> (if Name ev \<in> extraPaths e then (Add e (Name ev) w, True) else (w, False))
            | Chmod \<Rightarrow> (w, False)
            | Mixed \<Rightarrow> (w, True)) \<and>
         handleEvent0 e ev w = (w, False)"
proof -
  have m: "matchFile (extraPaths e) (Name ev) = (Name ev \<in> extraPaths e)"
    using assms(2) by (simp add: matchFile_def)
  have c: "created e (Name ev) w =
          (if Name ev \<in> extraPaths e then (Add e (Name ev) w, True) else (w, False))"
    using created_file_no_match [OF assms(1), of w] created_file_match [OF assms(1), of w] m
    by simp
  have new: "handleEvent e ev w =
           (case Op ev of
              Create \<Rightarrow> (if Name ev \<in> extraPaths e then (Add e (Name ev) w, True) else (w, False))
            | Write \<Rightarrow> (if Name ev \<in> extraPaths e then (Add e (Name ev) w, True) else (w, False))
            | Remove \<Rightarrow> (w - {Name ev}, True)
            | Rename \<Rightarrow> (if Name ev \<in> extraPaths e then (Add e (Name ev) w, True) else (w, False))
            | Chmod \<Rightarrow> (w, False)
            | Mixed \<Rightarrow> (w, True))"
    using c by (cases "Op ev") (simp_all add: Remove_path_def)
  have old: "handleEvent0 e ev w = (w, False)"
    using assms(2) by (simp add: handleEvent0_def)
  from new old show ?thesis by (rule conjI)
qed

text \<open>
  The lock file \<^verbatim>\<open>/w/.#main.go\<close>: its creation is ignored; a write to it that
  comes with a chmod sends the install signal in \<^verbatim>\<open>src/unnamed/part_000\<close>, and
  is ignored in \<^verbatim>\<open>src/rego.go\<close>.
\<close>

theorem dot_file_event_ignored_witness:
  "handleEvent \<lparr>stat = (\<lambda>p. Some File), addErr = (\<lambda>p. False), extraPaths = {}\<rparr>
     \<lparr>Name = ''/w/.#main.go'', Op = Create\<rparr> {''/w''} = ({''/w''}, False) \<and>
   handleEvent \<lparr>stat = (\<lambda>p. Some File), addErr = (\<lambda>p. False), extraPaths = {}\<rparr>
     \<lparr>Name = ''/w/.#main.go'', Op = Mixed\<rparr> {''/w''} = ({''/w''}, True) \<and>
   handleEvent0 \<lparr>stat = (\<lambda>p. Some File), addErr = (\<lambda>p. False), extraPaths = {}\<rparr>
     \<lparr>Name = ''/w/.#main.go'', Op = Mixed\<rparr> {''/w''} = ({''/w''}, False)"
  using dot_file_event_ignored
    [of "\<lparr>stat = (\<lambda>p. Some File), addErr = (\<lambda>p. False), extraPaths = {}\<rparr>"
        "\<lparr>Name = ''/w/.#main.go'', Op = Create\<rparr>" "{''/w''}"]
    dot_file_event_ignored
    [of "\<lparr>stat = (\<lambda>p. Some File), addErr = (\<lambda>p. False), extraPaths = {}\<rparr>"
        "\<lparr>Name = ''/w/.#main.go'', Op = Mixed\<rparr>" "{''/w''}"]
  by (simp add: Base_def HasPrefix_def IsPathSeparator_def)

section \<open>Properties of the main loop\<close>

lemma addPaths_eq: "addPaths e paths w = w \<union> {p \<in> set paths. \<not> addErr e p}"
  by (induction paths arbitrary: w) (auto simp: Add_def)

lemma addPathsLog_quiet: "addPathsLog False e paths = []"
  by (induction paths) simp_all

lemma walkLog_quiet:
  "walkLog False path nd = []" "walkEntriesLog False dir entries = []"
  by (induction False path nd and False dir entries rule: walkLog_walkEntriesLog.induct)
     (simp_all add: walkFnLog_def)

lemma eventLog_quiet: "eventLog False e ev w = []"
  by (cases "Op ev")
     (simp_all add: eventLog_def createdLog_def addPathsLog_quiet walkLog_quiet
        split: option.split)

text \<open>
  C8, as stated, fails: an error read from the watcher's error channel ends the
  tool, with status 1. And without \<^verbatim>\<open>-v\<close>, \<^verbatim>\<open>src/unnamed/part_000\<close> logs
  nothing when \<^verbatim>\<open>w.Add\<close> fails for the file \<^verbatim>\<open>/w/new.go\<close> just created.
\<close>

theorem watcher_error_exits:
  "status \<lparr>watched = {''/w''}, installs = 0, logged = [], status = None\<rparr> = None \<and>
   status (mainSelect False \<lparr>stat = (\<lambda>p. None), addErr = (\<lambda>p. False), extraPaths = {}\<rparr>
             (WatchError ''queue overflow'')
             \<lparr>watched = {''/w''}, installs = 0, logged = [], status = None\<rparr>) = Some 1 \<and>
   mainSelect False \<lparr>stat = (\<lambda>p. Some File), addErr = (\<lambda>p. True), extraPaths = {}\<rparr>
     (Event \<lparr>Name = ''/w/new.go'', Op = Create\<rparr>)
     \<lparr>watched = {''/w''}, installs = 0, logged = [], status = None\<rparr> =
   \<lparr>watched = {''/w''}, installs = 1, logged = [], status = None\<rparr>"
  by (simp add: mainSelect_def created_def matchFile_def Ext_def Base_def HasPrefix_def
        IsPathSeparator_def Add_def eventLog_def createdLog_def)

lemma handle_created:
  assumes "Op ev \<in> {Create, Rename, Write}" and "stat e (Name ev) = Some fi"
    and "IsDir fi \<or> matchFile (extraPaths e) (Name ev)"
  shows "handleEvent e ev w =
           (w \<union> {p \<in> set (if IsDir fi then Walk (extraPaths e) (Name ev) fi [Name ev]
                              else [Name ev]). \<not> addErr e p}, True)"
    and "eventLog v e ev w =
           (if IsDir fi then walkLog v (Name ev) fi else []) @
           addPathsLog v e (if IsDir fi then Walk (extraPaths e) (Name ev) fi [Name ev]
                            else [Name ev]) @
           (if v then [LogEvent ev] else [])"
proof -
  have c: "created e (Name ev) w =
           (w \<union> {p \<in> set (if IsDir fi then Walk (extraPaths e) (Name ev) fi [Name ev]
                              else [Name ev]). \<not> addErr e p}, True)"
    using assms(2,3) by (auto simp add: created_def addPaths_eq simp del: addPaths.simps)
  from c assms(1) show h: "handleEvent e ev w =
           (w \<union> {p \<in> set (if IsDir fi then Walk (extraPaths e) (Name ev) fi [Name ev]
                              else [Name ev]). \<not> addErr e p}, True)"
    by (cases "Op ev") simp_all
  have cl: "createdLog v e (Name ev) =
           (if IsDir fi then walkLog v (Name ev) fi else []) @
           addPathsLog v e (if IsDir fi then Walk (extraPaths e) (Name ev) fi [Name ev]
                            else [Name ev])"
    using assms(2,3) by (auto simp add: createdLog_def simp del: addPathsLog.simps)
  show "eventLog v e ev w =
           (if IsDir fi then walkLog v (Name ev) fi else []) @
           addPathsLog v e (if IsDir fi then Walk (extraPaths e) (Name ev) fi [Name ev]
                            else [Name ev]) @
           (if v then [LogEvent ev] else [])"
    unfolding eventLog_def h using assms(1) cl by (cases "Op ev") simp_all
qed

lemma LogErr_addPathsLog:
  "(LogErr p \<in> set (addPathsLog v e paths)) = (v \<and> p \<in> set paths \<and> addErr e p)"
  by (induction paths) auto

lemma LogErr_walkLog:
  "LogErr p \<in> set (walkLog v path nd) \<Longrightarrow> v"
  "LogErr p \<in> set (walkEntriesLog v dir entries) \<Longrightarrow> v"
  by (induction v path nd and v dir entries rule: walkLog_walkEntriesLog.induct)
     (auto simp: walkFnLog_def split: if_splits)

text \<open>
  C8, amended. After startup a failure to add or to remove a watch while an event is
  handled is absorbed: the tool keeps running, the failed call changes nothing, the
  other paths of the event are still added, and the install signal is still sent.
  \<^verbatim>\<open>src/unnamed/part_000\<close> logs such a failure only under \<^verbatim>\<open>-v\<close> (without it
  the event goroutine logs nothing at all); \<^verbatim>\<open>src/rego.go\<close> logs it always. A
  failed build is absorbed and always logged. The closing of a watcher channel
  changes nothing. An error read from the watcher's error channel is logged and ends
  the tool, with status 1.
\<close>

theorem steady_state_failures:
  "status (mainSelect v e (Event ev) s) = status s \<and>
   status (mainSelect0 v e (Event ev) s) = status s \<and>
   (Op ev \<in> {Create, Rename, Write} \<longrightarrow> stat e (Name ev) = Some fi \<longrightarrow>
    IsDir fi \<or> matchFile (extraPaths e) (Name ev) \<longrightarrow>
      watched (mainSelect v e (Event ev) s) =
        watched s \<union> {p \<in> set (if IsDir fi then Walk (extraPaths e) (Name ev) fi [Name ev]
                                   else [Name ev]). \<not> addErr e p} \<and>
      installs (mainSelect v e (Event ev) s) = installs s + 1 \<and>
      (\<forall>p \<in> set (if IsDir fi then Walk (extraPaths e) (Name ev) fi [Name ev] else [Name ev]).
         addErr e p \<longrightarrow> (LogErr p \<in> set (eventLog v e ev (watched s))) = v)) \<and>
   (Op ev = Remove \<longrightarrow> Name ev \<notin> watched s \<longrightarrow>
      mainSelect v e (Event ev) s =
        s\<lparr>installs := installs s + 1,
          logged := logged s @ (if v then [LogErr (Name ev), LogEvent ev] else [])\<rparr>) \<and>
   logged (mainSelect False e (Event ev) s) = logged s \<and>
   (Ext (Name ev) = ''.go'' \<longrightarrow> \<not> HasPrefix (Base (Name ev)) ''.'' \<longrightarrow>
    (Op ev = Create \<and> addErr e (Name ev)) \<or> (Op ev = Remove \<and> Name ev \<notin> watched s) \<longrightarrow>
      mainSelect0 v e (Event ev) s =
        s\<lparr>installs := installs s + 1,
          logged := logged s @ [LogErr (Name ev)] @ (if v then [LogEvent ev] else [])\<rparr>) \<and>
   buildCycle sigErr started False (b, sv) =
     (b\<lparr>printed := printed b @ [''compilation failed'']\<rparr>, sv) \<and>
   buildCycle0 sigErr started False (b, sv) =
     (b\<lparr>printed := printed b @ [''compilation failed'']\<rparr>, sv) \<and>
   mainSelect v e EventsClosed s = s \<and>
   mainSelect v e ErrorsClosed s = s \<and>
   mainSelect v e (WatchError err) s =
     s\<lparr>logged := logged s @ [LogFatal err], status := Some 1\<rparr> \<and>
   mainSelect0 v e (WatchError err) s =
     s\<lparr>logged := logged s @ [LogFatal err], status := Some 1\<rparr>"
proof -
  have run: "status (mainSelect v e (Event ev) s) = status s"
    "status (mainSelect0 v e (Event ev) s) = status s"
    by (simp_all add: mainSelect_def mainSelect0_def split: prod.split)
  have add: "Op ev \<in> {Create, Rename, Write} \<longrightarrow> stat e (Name ev) = Some fi \<longrightarrow>
    IsDir fi \<or> matchFile (extraPaths e) (Name ev) \<longrightarrow>
      watched (mainSelect v e (Event ev) s) =
        watched s \<union> {p \<in> set (if IsDir fi then Walk (extraPaths e) (Name ev) fi [Name ev]
                                   else [Name ev]). \<not> addErr e p} \<and>
      installs (mainSelect v e (Event ev) s) = installs s + 1 \<and>
      (\<forall>p \<in> set (if IsDir fi then Walk (extraPaths e) (Name ev) fi [Name ev] else [Name ev]).
         addErr e p \<longrightarrow> (LogErr p \<in> set (eventLog v e ev (watched s))) = v)"
  proof (intro impI)
    assume a: "Op ev \<in> {Create, Rename, Write}" "stat e (Name ev) = Some fi"
      "IsDir fi \<or> matchFile (extraPaths e) (Name ev)"
    note h = handle_created [OF a]
    have w: "watched (mainSelect v e (Event ev) s) =
        watched s \<union> {p \<in> set (if IsDir fi then Walk (extraPaths e) (Name ev) fi [Name ev]
                                   else [Name ev]). \<not> addErr e p}"
      and i: "installs (mainSelect v e (Event ev) s) = installs s + 1"
      unfolding mainSelect_def by (simp_all add: h(1) del: handleEvent.simps)
    have l: "\<forall>p \<in> set (if IsDir fi then Walk (extraPaths e) (Name ev) fi [Name ev] else [Name ev]).
         addErr e p \<longrightarrow> (LogErr p \<in> set (eventLog v e ev (watched s))) = v"
      unfolding h(2) using LogErr_walkLog(1) [of _ v "Name ev" fi]
      by (auto simp add: LogErr_addPathsLog simp del: addPathsLog.simps)
    from w i l show "watched (mainSelect v e (Event ev) s) =
        watched s \<union> {p \<in> set (if IsDir fi then Walk (extraPaths e) (Name ev) fi [Name ev]
                                   else [Name ev]). \<not> addErr e p} \<and>
      installs (mainSelect v e (Event ev) s) = installs s + 1 \<and>
      (\<forall>p \<in> set (if IsDir fi then Walk (extraPaths e) (Name ev) fi [Name ev] else [Name ev]).
         addErr e p \<longrightarrow> (LogErr p \<in> set (eventLog v e ev (watched s))) = v)"
      by simp
  qed
  have rem: "Op ev = Remove \<longrightarrow> Name ev \<notin> watched s \<longrightarrow>
      mainSelect v e (Event ev) s =
        s\<lparr>installs := installs s + 1,
          logged := logged s @ (if v then [LogErr (Name ev), LogEvent ev] else [])\<rparr>"
    by (simp add: mainSelect_def eventLog_def Remove_path_def)
  have quiet: "logged (mainSelect False e (Event ev) s) = logged s"
    by (simp add: mainSelect_def eventLog_quiet split: prod.split del: handleEvent.simps)
  have old: "Ext (Name ev) = ''.go'' \<longrightarrow> \<not> HasPrefix (Base (Name ev)) ''.'' \<longrightarrow>
    (Op ev = Create \<and> addErr e (Name ev)) \<or> (Op ev = Remove \<and> Name ev \<notin> watched s) \<longrightarrow>
      mainSelect0 v e (Event ev) s =
        s\<lparr>installs := installs s + 1,
          logged := logged s @ [LogErr (Name ev)] @ (if v then [LogEvent ev] else [])\<rparr>"
    by (auto simp add: mainSelect0_def handleEvent0_def eventLog0_def Add_def Remove_path_def)
  have build: "buildCycle sigErr started False (b, sv) =
     (b\<lparr>printed := printed b @ [''compilation failed'']\<rparr>, sv)"
    "buildCycle0 sigErr started False (b, sv) =
     (b\<lparr>printed := printed b @ [''compilation failed'']\<rparr>, sv)"
    by (simp_all add: buildCycle_def buildCycle0_def installAndRestart_def deliver_def)
  have rest: "mainSelect v e EventsClosed s = s" "mainSelect v e ErrorsClosed s = s"
    "mainSelect v e (WatchError err) s =
      s\<lparr>logged := logged s @ [LogFatal err], status := Some 1\<rparr>"
    "mainSelect0 v e (WatchError err) s =
      s\<lparr>logged := logged s @ [LogFatal err], status := Some 1\<rparr>"
    by (simp_all add: mainSelect_def mainSelect0_def)
  from run add rem quiet old build rest show ?thesis by blast
qed

text \<open>
  With \<^verbatim>\<open>-v\<close>: \<^verbatim>\<open>w.Add\<close> fails for the file \<^verbatim>\<open>/w/new.go\<close> just created,
  and \<^verbatim>\<open>/w/old.go\<close>, which was not watched, is removed.
\<close>

theorem steady_state_failures_witness:
  "watched (mainSelect True \<lparr>stat = (\<lambda>p. Some File), addErr = (\<lambda>p. True), extraPaths = {}\<rparr>
              (Event \<lparr>Name = ''/w/new.go'', Op = Create\<rparr>)
              \<lparr>watched = {''/w''}, installs = 0, logged = [], status = None\<rparr>) = {''/w''} \<and>
   installs (mainSelect True \<lparr>stat = (\<lambda>p. Some File), addErr = (\<lambda>p. True), extraPaths = {}\<rparr>
              (Event \<lparr>Name = ''/w/new.go'', Op = Create\<rparr>)
              \<lparr>watched = {''/w''}, installs = 0, logged = [], status = None\<rparr>) = 1 \<and>
   LogErr ''/w/new.go'' \<in>
     set (eventLog True \<lparr>stat = (\<lambda>p. Some File), addErr = (\<lambda>p. True), extraPaths = {}\<rparr>
            \<lparr>Name = ''/w/new.go'', Op = Create\<rparr> {''/w''}) \<and>
   mainSelect True \<lparr>stat = (\<lambda>p. None), addErr = (\<lambda>p. False), extraPaths = {}\<rparr>
     (Event \<lparr>Name = ''/w/old.go'', Op = Remove\<rparr>)
     \<lparr>watched = {''/w''}, installs = 0, logged = [], status = None\<rparr> =
   \<lparr>watched = {''/w''}, installs = 1,
     logged = [LogErr ''/w/old.go'', LogEvent \<lparr>Name = ''/w/old.go'', Op = Remove\<rparr>],
     status = None\<rparr>"
proof -
  have m: "matchFile {} ''/w/new.go''"
    by (simp add: matchFile_def Ext_def Base_def HasPrefix_def IsPathSeparator_def)
  from steady_state_failures
    [of True "\<lparr>stat = (\<lambda>p. Some File), addErr = (\<lambda>p. True), extraPaths = {}\<rparr>"
        "\<lparr>Name = ''/w/new.go'', Op = Create\<rparr>"
        "\<lparr>watched = {''/w''}, installs = 0, logged = [], status = None\<rparr>" File]
  have a: "watched (mainSelect True \<lparr>stat = (\<lambda>p. Some File), addErr = (\<lambda>p. True), extraPaths = {}\<rparr>
              (Event \<lparr>Name = ''/w/new.go'', Op = Create\<rparr>)
              \<lparr>watched = {''/w''}, installs = 0, logged = [], status = None\<rparr>) = {''/w''}"
    and b: "installs (mainSelect True \<lparr>stat = (\<lambda>p. Some File), addErr = (\<lambda>p. True), extraPaths = {}\<rparr>
              (Event \<lparr>Name = ''/w/new.go'', Op = Create\<rparr>)
              \<lparr>watched = {''/w''}, installs = 0, logged = [], status = None\<rparr>) = 1"
    and c: "LogErr ''/w/new.go'' \<in>
     set (eventLog True \<lparr>stat = (\<lambda>p. Some File), addErr = (\<lambda>p. True), extraPaths = {}\<rparr>
            \<lparr>Name = ''/w/new.go'', Op = Create\<rparr> {''/w''})"
    using m by simp_all
  from steady_state_failures
    [of True "\<lparr>stat = (\<lambda>p. None), addErr = (\<lambda>p. False), extraPaths = {}\<rparr>"
        "\<lparr>Name = ''/w/old.go'', Op = Remove\<rparr>"
        "\<lparr>watched = {''/w''}, installs = 0, logged = [], status = None\<rparr>"]
  have d: "mainSelect True \<lparr>stat = (\<lambda>p. None), addErr = (\<lambda>p. False), extraPaths = {}\<rparr>
     (Event \<lparr>Name = ''/w/old.go'', Op = Remove\<rparr>)
     \<lparr>watched = {''/w''}, installs = 0, logged = [], status = None\<rparr> =
   \<lparr>watched = {''/w''}, installs = 1,
     logged = [LogErr ''/w/old.go'', LogEvent \<lparr>Name = ''/w/old.go'', Op = Remove\<rparr>],
     status = None\<rparr>"
    by simp
  from a b c d show ?thesis by simp
qed

section \<open>Properties of dependency resolution\<close>

lemmas resolveLoop_unfold = resolveLoop.simps

declare resolveLoop.simps [simp del]

declare resolveLoop0.simps [simp del]

























lemma importLoop_C:
  "''C'' \<notin> seen \<Longrightarrow> importLoop importer sch (''C'' # imps) [] ps seen = Inl Returned"
proof (induction sch)
  case Nil
  then show ?case by simp
next
  case (Cons t sch)
  then show ?case by (cases t) simp_all
qed









text \<open>
  C3 at an input on which \<^verbatim>\<open>src/unnamed/part_000\<close> misses it. \<^verbatim>\<open>cgoapp\<close>
  imports \<^verbatim>\<open>"C"\<close> and then \<^verbatim>\<open>app/lib\<close>. At \<^verbatim>\<open>"C"\<close> the loop returns from
  \<^verbatim>\<open>main\<close>, under every schedule: \<^verbatim>\<open>app/lib\<close> is never resolved and the tool
  ends during startup. \<^verbatim>\<open>src/rego.go\<close> skips \<^verbatim>\<open>"C"\<close> and resolves the rest of
  the graph.
\<close>

theorem cgo_import_returns_from_main:
  "resolve goPath (\<lambda>p. False) sched cgoPkg = Inl Returned \<and>
   resolve0 goPath (\<lambda>p. False) cgoPkg =
     Inr \<lparr>pkgs = [cgoPkg, libPkg, fmtPkg, errorsPkg],
          seenPkgs = {''errors'', ''fmt'', ''app/lib''},
          watches = {''/go/src/errors/errors.go'', ''/go/src/errors'',
                     ''/go/src/fmt/print.go'', ''/go/src/fmt'',
                     ''/src/app/lib/lib.go'', ''/src/app/lib'',
                     ''/src/cgoapp/main.go'', ''/src/cgoapp''}\<rparr>"
proof -
  have "importLoop goPath (sched 0) (Imports cgoPkg) [] [cgoPkg] {} = Inl Returned"
    using importLoop_C [of "{}" goPath "sched 0" "[''app/lib'']" "[cgoPkg]"]
    by (simp add: cgoPkg_def)
  then have new: "resolve goPath (\<lambda>p. False) sched cgoPkg = Inl Returned"
    by (simp add: resolve_def resolveLoop_unfold) (simp add: cgoPkg_def)
  have old: "resolve0 goPath (\<lambda>p. False) cgoPkg =
     Inr \<lparr>pkgs = [cgoPkg, libPkg, fmtPkg, errorsPkg],
          seenPkgs = {''errors'', ''fmt'', ''app/lib''},
          watches = {''/go/src/errors/errors.go'', ''/go/src/errors'',
                     ''/go/src/fmt/print.go'', ''/go/src/fmt'',
                     ''/src/app/lib/lib.go'', ''/src/app/lib'',
                     ''/src/cgoapp/main.go'', ''/src/cgoapp''}\<rparr>"
    by (simp add: resolve0_def resolveLoop0.simps goPath_def appPkg_def libPkg_def fmtPkg_def
          errorsPkg_def cgoPkg_def Join_def)
  from new old show ?thesis by (rule conjI)
qed

end
